theory Spec2Isabelle
  imports Main "HOL-Library.Word" "HOL-Library.Multiset"
begin

section \<open>Values\<close>

text \<open>
  A Python \<open>str\<close> is a sequence of Unicode code points and \<open>len\<close> counts code points,
  so a string is a list of code points. A \<open>UUID\<close> is a 128-bit number. A naive
  \<open>datetime\<close> is the number of microseconds since the epoch.
\<close>

type_synonym pystr = "nat list"
type_synonym uuid = "128 word"
type_synonym datetime = int

abbreviation py :: "string \<Rightarrow> pystr" where
  "py s \<equiv> map of_char s"

text \<open>
  The code points that \<open>str.strip()\<close> removes when called without an argument:
  U+0009..U+000D, U+001C..U+0020, U+0085, U+00A0, U+1680, U+2000..U+200A, U+2028, U+2029,
  U+202F, U+205F and U+3000.
\<close>

definition isspace :: "nat \<Rightarrow> bool" where
  "isspace c \<longleftrightarrow>
     (9 \<le> c \<and> c \<le> 13) \<or> (28 \<le> c \<and> c \<le> 32) \<or> c = 133 \<or> c = 160 \<or> c = 5760 \<or>
     (8192 \<le> c \<and> c \<le> 8202) \<or> c = 8232 \<or> c = 8233 \<or> c = 8239 \<or> c = 8287 \<or> c = 12288"

definition lstrip :: "pystr \<Rightarrow> pystr" where
  "lstrip s = dropWhile isspace s"

definition rstrip :: "pystr \<Rightarrow> pystr" where
  "rstrip s = rev (dropWhile isspace (rev s))"

definition strip :: "pystr \<Rightarrow> pystr" where
  "strip s = rstrip (lstrip s)"

text \<open>
  A code point that UTF-8 can encode: below U+110000 and not a surrogate (U+D800..U+DFFF).
  A \<open>str\<close> that \<open>json.loads\<close> built from an escape such as \<open>\ud800\<close> holds a code point
  that is not.
\<close>

definition unicode_scalar :: "nat \<Rightarrow> bool" where
  "unicode_scalar c \<longleftrightarrow> c < 55296 \<or> (57343 < c \<and> c < 1114112)"

text \<open>
  A request body after \<open>json.loads\<close>: an object whose members are JSON values. \<open>JInt n\<close>
  is the integer \<open>n\<close>, of any size; \<open>JOther\<close> is an array or an object. Numbers written
  with a fraction or an exponent are not represented.
\<close>

datatype json = JNull | JBool bool | JInt int | JStr pystr | JOther

type_synonym payload = "string \<rightharpoonup> json"

section \<open>Errors (src/exceptions.py and the exceptions of the libraries)\<close>

datatype error_type =
  Missing | String_type | String_unicode | String_too_short | String_too_long | Value_error
  | Bool_type | Bool_parsing

datatype error =
  ValidationError "(string \<times> error_type) list"
  | TaskNotFoundError uuid
  | IntegrityError
  | MultipleResultsFound

section \<open>Validation layer (src/schemas/task.py)\<close>

text \<open>
  The field types of the schemas. A \<open>str\<close> field takes a JSON string only, and only one
  that UTF-8 can encode; the bounds of \<open>Field(min_length, max_length)\<close> belong to the type
  and are checked on the value as it arrives. \<open>T | None\<close> lets null through and hands every
  other value to \<open>T\<close>. A \<open>bool\<close> field takes a boolean, the integers 0 and 1, and the
  strings of the lax conversion table compared without regard to ASCII case; an integer
  that does not fit in 64 bits is not read as a number at all.
\<close>

definition str_type :: "json \<Rightarrow> error_type + pystr" where
  "str_type v =
     (case v of
        JStr s \<Rightarrow> if list_all unicode_scalar s then Inr s else Inl String_unicode
      | _ \<Rightarrow> Inl String_type)"

definition constrained_str :: "nat \<Rightarrow> nat \<Rightarrow> json \<Rightarrow> error_type + pystr" where
  "constrained_str min_length max_length v =
     (case str_type v of
        Inl e \<Rightarrow> Inl e
      | Inr s \<Rightarrow>
          if length s < min_length then Inl String_too_short
          else if max_length < length s then Inl String_too_long
          else Inr s)"

definition nullable :: "(json \<Rightarrow> error_type + 'a) \<Rightarrow> json \<Rightarrow> error_type + 'a option" where
  "nullable inner v =
     (case v of
        JNull \<Rightarrow> Inr None
      | _ \<Rightarrow> (case inner v of Inl e \<Rightarrow> Inl e | Inr x \<Rightarrow> Inr (Some x)))"

definition ascii_lower :: "nat \<Rightarrow> nat" where
  "ascii_lower c = (if 65 \<le> c \<and> c \<le> 90 then c + 32 else c)"

definition bool_type :: "json \<Rightarrow> error_type + bool" where
  "bool_type v =
     (case v of
        JBool b \<Rightarrow> Inr b
      | JInt n \<Rightarrow>
          if n < - (2 ^ 63) \<or> 2 ^ 63 \<le> n then Inl Bool_type
          else if n = 0 then Inr False
          else if n = 1 then Inr True
          else Inl Bool_parsing
      | JStr s \<Rightarrow>
          if map ascii_lower s \<in> set (map py [''0'', ''f'', ''n'', ''no'', ''off'', ''false''])
          then Inr False
          else if map ascii_lower s \<in> set (map py [''1'', ''t'', ''y'', ''on'', ''yes'', ''true''])
          then Inr True
          else Inl Bool_parsing
      | _ \<Rightarrow> Inl Bool_type)"

text \<open>
  A field validator declared with \<open>@field_validator\<close> runs in mode "after": it receives the
  value only once the field's type, bounds included, has accepted it.
\<close>

definition after_validator ::
  "(json \<Rightarrow> error_type + 'a) \<Rightarrow> ('a \<Rightarrow> error_type + 'b) \<Rightarrow> json \<Rightarrow> error_type + 'b" where
  "after_validator inner f v = (case inner v of Inl e \<Rightarrow> Inl e | Inr x \<Rightarrow> f x)"

definition field_errors :: "string \<Rightarrow> error_type + 'a \<Rightarrow> (string \<times> error_type) list" where
  "field_errors name r = (case r of Inl e \<Rightarrow> [(name, e)] | Inr _ \<Rightarrow> [])"

subsection \<open>TaskCreate\<close>

record TaskCreate =
  create_title :: pystr
  create_description :: "pystr option"

definition title_not_whitespace :: "pystr \<Rightarrow> error_type + pystr" where
  "title_not_whitespace v =
     (let stripped = strip v in if stripped = [] then Inl Value_error else Inr stripped)"

definition TaskCreate_title :: "payload \<Rightarrow> error_type + pystr" where
  "TaskCreate_title p =
     (case p ''title'' of
        None \<Rightarrow> Inl Missing
      | Some v \<Rightarrow> after_validator (constrained_str 1 200) title_not_whitespace v)"

definition TaskCreate_description :: "payload \<Rightarrow> error_type + pystr option" where
  "TaskCreate_description p =
     (case p ''description'' of None \<Rightarrow> Inr None | Some v \<Rightarrow> nullable str_type v)"

text \<open>
  Validation of a body against \<open>TaskCreate\<close>: only the members \<open>title\<close> and
  \<open>description\<close> are read (the schema ignores every other member), and the errors of all
  fields are reported together.
\<close>

definition TaskCreate_validate :: "payload \<Rightarrow> error + TaskCreate" where
  "TaskCreate_validate p =
     (case (TaskCreate_title p, TaskCreate_description p) of
        (Inr t, Inr d) \<Rightarrow> Inr \<lparr>create_title = t, create_description = d\<rparr>
      | (rt, rd) \<Rightarrow>
          Inl (ValidationError (field_errors ''title'' rt @ field_errors ''description'' rd)))"

subsection \<open>TaskUpdate\<close>

text \<open>
  A \<open>TaskUpdate\<close> holds a value for each field (the default \<open>None\<close> where the body has no
  such member) and, in \<open>model_fields_set\<close>, the names of the fields the body supplied.
\<close>

record TaskUpdate =
  update_title :: "pystr option"
  update_description :: "pystr option"
  update_is_completed :: "bool option"
  model_fields_set :: "string set"

definition title_not_whitespace_opt :: "pystr option \<Rightarrow> error_type + pystr option" where
  "title_not_whitespace_opt v =
     (case v of
        None \<Rightarrow> Inr None
      | Some s \<Rightarrow>
          (let stripped = strip s in
           if stripped = [] then Inl Value_error else Inr (Some stripped)))"

definition TaskUpdate_title :: "payload \<Rightarrow> error_type + pystr option" where
  "TaskUpdate_title p =
     (case p ''title'' of
        None \<Rightarrow> Inr None
      | Some v \<Rightarrow> after_validator (nullable (constrained_str 1 200)) title_not_whitespace_opt v)"

definition TaskUpdate_description :: "payload \<Rightarrow> error_type + pystr option" where
  "TaskUpdate_description p =
     (case p ''description'' of None \<Rightarrow> Inr None | Some v \<Rightarrow> nullable str_type v)"

definition TaskUpdate_is_completed :: "payload \<Rightarrow> error_type + bool option" where
  "TaskUpdate_is_completed p =
     (case p ''is_completed'' of None \<Rightarrow> Inr None | Some v \<Rightarrow> nullable bool_type v)"

definition TaskUpdate_validate :: "payload \<Rightarrow> error + TaskUpdate" where
  "TaskUpdate_validate p =
     (case (TaskUpdate_title p, TaskUpdate_description p, TaskUpdate_is_completed p) of
        (Inr t, Inr d, Inr c) \<Rightarrow>
          Inr \<lparr>update_title = t, update_description = d, update_is_completed = c,
               model_fields_set =
                 set (filter (\<lambda>k. p k \<noteq> None) [''title'', ''description'', ''is_completed''])\<rparr>
      | (rt, rd, rc) \<Rightarrow>
          Inl (ValidationError
                (field_errors ''title'' rt @ field_errors ''description'' rd
                 @ field_errors ''is_completed'' rc)))"

section \<open>Task entity (src/models/task.py)\<close>

text \<open>
  The attributes of a \<open>Task\<close> object. The class declares \<open>title: str\<close> and
  \<open>is_completed: bool\<close>, but a table model does not validate what \<open>setattr\<close> assigns,
  so either attribute of an object in memory may hold \<open>None\<close>; \<open>nullable=False\<close> is a
  constraint of the table, checked when the row is written.
\<close>

record Task =
  task_id :: uuid
  title :: "pystr option"
  description :: "pystr option"
  is_completed :: "bool option"
  created_at :: datetime
  updated_at :: datetime

text \<open>
  \<open>Task(title=..., description=...)\<close>: the remaining fields take their defaults. The
  three default factories are called one after the other, in the order of the fields:
  \<open>uuid4()\<close> for \<open>id\<close>, \<open>datetime.utcnow()\<close> for \<open>created_at\<close> and
  \<open>datetime.utcnow()\<close> again for \<open>updated_at\<close>. Their results are inputs of the model.
\<close>

definition Task_init :: "pystr \<Rightarrow> pystr option \<Rightarrow> uuid \<Rightarrow> datetime \<Rightarrow> datetime \<Rightarrow> Task" where
  "Task_init ttl descr uuid4 utcnow1 utcnow2 =
     \<lparr>task_id = uuid4, title = Some ttl, description = descr, is_completed = Some False,
      created_at = utcnow1, updated_at = utcnow2\<rparr>"

section \<open>Persistence boundary\<close>

text \<open>
  The table is the list of its rows, oldest insertion first. A commit that inserts or
  updates a row fails with \<open>IntegrityError\<close> when a \<open>nullable=False\<close> column would hold
  null, and an insert also when the primary key is taken; a failed commit leaves the table
  as it was. The \<open>max_length\<close> of the title column is not enforced by the SQLite engine of
  the tests and is not modelled.
\<close>

type_synonym store = "Task list"

definition not_null :: "Task \<Rightarrow> bool" where
  "not_null t \<longleftrightarrow> title t \<noteq> None \<and> is_completed t \<noteq> None"

definition commit_insert :: "store \<Rightarrow> Task \<Rightarrow> error + store" where
  "commit_insert rows t =
     (if \<not> not_null t \<or> task_id t \<in> set (map task_id rows) then Inl IntegrityError
      else Inr (rows @ [t]))"

definition commit_update :: "store \<Rightarrow> Task \<Rightarrow> error + store" where
  "commit_update rows t =
     (if \<not> not_null t then Inl IntegrityError
      else Inr (map (\<lambda>r. if task_id r = task_id t then t else r) rows))"

definition commit_delete :: "store \<Rightarrow> Task \<Rightarrow> store" where
  "commit_delete rows t = filter (\<lambda>r. task_id r \<noteq> task_id t) rows"

text \<open>\<open>scalar_one_or_none()\<close> on the rows a query selected.\<close>

definition scalar_one_or_none :: "'a list \<Rightarrow> error + 'a option" where
  "scalar_one_or_none rs =
     (case rs of [] \<Rightarrow> Inr None | [r] \<Rightarrow> Inr (Some r) | _ \<Rightarrow> Inl MultipleResultsFound)"

text \<open>
  \<open>ORDER BY created_at DESC\<close>, as an insertion sort that keeps rows of equal
  \<open>created_at\<close> in the order of the table (the engine is free to order them otherwise).
\<close>

fun insert_desc :: "Task \<Rightarrow> Task list \<Rightarrow> Task list" where
  "insert_desc t [] = [t]"
| "insert_desc t (r # rs) =
     (if created_at r \<le> created_at t then t # r # rs else r # insert_desc t rs)"

fun order_by_created_at_desc :: "Task list \<Rightarrow> Task list" where
  "order_by_created_at_desc [] = []"
| "order_by_created_at_desc (r # rs) = insert_desc r (order_by_created_at_desc rs)"

section \<open>Task service (src/services/task_service.py)\<close>

text \<open>
  Every operation takes the table and, when it writes, returns the new table beside its
  result. An exception is an \<open>Inl\<close>: no new table is returned, the table stays as it was.
\<close>

definition create_task ::
  "store \<Rightarrow> TaskCreate \<Rightarrow> uuid \<Rightarrow> datetime \<Rightarrow> datetime \<Rightarrow> error + store \<times> Task" where
  "create_task rows task_data uuid4 utcnow1 utcnow2 =
     (let task = Task_init (create_title task_data) (create_description task_data)
                   uuid4 utcnow1 utcnow2
      in case commit_insert rows task of
           Inl e \<Rightarrow> Inl e
         | Inr rows' \<Rightarrow> Inr (rows', task))"

definition get_task :: "store \<Rightarrow> uuid \<Rightarrow> error + Task" where
  "get_task rows tid =
     (case scalar_one_or_none (filter (\<lambda>r. task_id r = tid) rows) of
        Inl e \<Rightarrow> Inl e
      | Inr None \<Rightarrow> Inl (TaskNotFoundError tid)
      | Inr (Some task) \<Rightarrow> Inr task)"

definition list_tasks :: "store \<Rightarrow> Task list" where
  "list_tasks rows = order_by_created_at_desc rows"

text \<open>
  \<open>model_dump(exclude_unset=True)\<close>: the fields named in \<open>model_fields_set\<close>, each with
  its value, in the order of the fields; \<open>setattr\<close> assigns one of them.
\<close>

datatype field_value =
  Title "pystr option" | Description "pystr option" | Is_completed "bool option"

definition model_dump_exclude_unset :: "TaskUpdate \<Rightarrow> field_value list" where
  "model_dump_exclude_unset task_data =
     (if ''title'' \<in> model_fields_set task_data then [Title (update_title task_data)] else [])
     @ (if ''description'' \<in> model_fields_set task_data
        then [Description (update_description task_data)] else [])
     @ (if ''is_completed'' \<in> model_fields_set task_data
        then [Is_completed (update_is_completed task_data)] else [])"

fun setattr :: "Task \<Rightarrow> field_value \<Rightarrow> Task" where
  "setattr task (Title v) = task\<lparr>title := v\<rparr>"
| "setattr task (Description v) = task\<lparr>description := v\<rparr>"
| "setattr task (Is_completed v) = task\<lparr>is_completed := v\<rparr>"

definition update_task ::
  "store \<Rightarrow> uuid \<Rightarrow> TaskUpdate \<Rightarrow> datetime \<Rightarrow> error + store \<times> Task" where
  "update_task rows tid task_data utcnow =
     (case get_task rows tid of
        Inl e \<Rightarrow> Inl e
      | Inr task \<Rightarrow>
          (let update_data = model_dump_exclude_unset task_data;
               task1 = foldl setattr task update_data;
               task2 = task1\<lparr>updated_at := utcnow\<rparr>
           in case commit_update rows task2 of
                Inl e \<Rightarrow> Inl e
              | Inr rows' \<Rightarrow> Inr (rows', task2)))"

definition delete_task :: "store \<Rightarrow> uuid \<Rightarrow> error + store \<times> unit" where
  "delete_task rows tid =
     (case get_task rows tid of
        Inl e \<Rightarrow> Inl e
      | Inr task \<Rightarrow> Inr (commit_delete rows task, ()))"

section \<open>Endpoints (src/api/tasks.py)\<close>

text \<open>
  An endpoint validates the body against its schema and then calls the service. The path
  parameter has been parsed to a \<open>UUID\<close> already.
\<close>

definition api_create_task ::
  "store \<Rightarrow> payload \<Rightarrow> uuid \<Rightarrow> datetime \<Rightarrow> datetime \<Rightarrow> error + store \<times> Task" where
  "api_create_task rows body uuid4 utcnow1 utcnow2 =
     (case TaskCreate_validate body of
        Inl e \<Rightarrow> Inl e
      | Inr task_data \<Rightarrow> create_task rows task_data uuid4 utcnow1 utcnow2)"

definition api_update_task ::
  "store \<Rightarrow> uuid \<Rightarrow> payload \<Rightarrow> datetime \<Rightarrow> error + store \<times> Task" where
  "api_update_task rows tid body utcnow =
     (case TaskUpdate_validate body of
        Inl e \<Rightarrow> Inl e
      | Inr task_data \<Rightarrow> update_task rows tid task_data utcnow)"

definition api_delete_task :: "store \<Rightarrow> uuid \<Rightarrow> error + store \<times> unit" where
  "api_delete_task rows tid = delete_task rows tid"

text \<open>
  A writing request with the values its handling draws from the environment, and the
  table after a sequence of such requests; a request that ends in an error changes nothing.
\<close>

datatype request =
  Post payload uuid datetime datetime
  | Put uuid payload datetime
  | Delete uuid

fun handle :: "store \<Rightarrow> request \<Rightarrow> store" where
  "handle rows (Post body uuid4 utcnow1 utcnow2) =
     (case api_create_task rows body uuid4 utcnow1 utcnow2 of
        Inl e \<Rightarrow> rows | Inr (rows', task) \<Rightarrow> rows')"
| "handle rows (Put tid body utcnow) =
     (case api_update_task rows tid body utcnow of
        Inl e \<Rightarrow> rows | Inr (rows', task) \<Rightarrow> rows')"
| "handle rows (Delete tid) =
     (case api_delete_task rows tid of
        Inl e \<Rightarrow> rows | Inr (rows', u) \<Rightarrow> rows')"

definition run :: "store \<Rightarrow> request list \<Rightarrow> store" where
  "run rows reqs = foldl handle rows reqs"

text \<open>The title of a stored row is a string that is neither empty nor all whitespace.\<close>

definition title_ok :: "Task \<Rightarrow> bool" where
  "title_ok t = (case title t of None \<Rightarrow> False | Some s \<Rightarrow> s \<noteq> [] \<and> \<not> list_all isspace s)"

section \<open>Validation: general facts\<close>




lemma hd_strip_not_space:
  assumes "strip s \<noteq> []"
  shows "\<not> isspace (hd (strip s))"
proof -
  let ?l = "dropWhile isspace s"
  let ?r = "dropWhile isspace (rev ?l)"
  from assms have r: "?r \<noteq> []"
    by (simp add: strip_def lstrip_def rstrip_def)
  have l: "?l \<noteq> []"
  proof
    assume "?l = []"
    then have "?r = []" by (simp only: rev.simps dropWhile.simps)
    with r show False by blast
  qed
  from l have hl: "\<not> isspace (hd ?l)"
    by (rule hd_dropWhile)
  from r have "\<not> isspace (hd ?r)"
    by (rule hd_dropWhile)
  obtain ys where ys: "rev ?l = ys @ ?r"
    by (metis takeWhile_dropWhile_id)
  then have "?l = rev ?r @ rev ys"
    by (metis rev_append rev_rev_ident)
  with r have "hd (rev ?r) = hd ?l"
    by (metis hd_append2 rev_is_Nil_conv)
  with hl show ?thesis
    by (simp add: strip_def lstrip_def rstrip_def)
qed

lemma strip_not_all_space:
  assumes "strip s \<noteq> []"
  shows "\<not> list_all isspace (strip s)"
proof
  assume a: "list_all isspace (strip s)"
  from assms have "hd (strip s) \<in> set (strip s)"
    by simp
  with a have "isspace (hd (strip s))"
    by (simp add: list_all_iff)
  with hd_strip_not_space [OF assms] show False
    by simp
qed

lemma strip_all_space:
  assumes "list_all isspace s"
  shows "strip s = []"
proof -
  from assms have "\<forall>x\<in>set s. isspace x"
    by (simp add: list_all_iff)
  then have "dropWhile isspace s = []"
    by (metis dropWhile_eq_Nil_conv)
  then show ?thesis
    by (simp only: strip_def lstrip_def rstrip_def rev.simps dropWhile.simps)
qed


lemma strip_eq_Nil_iff: "strip s = [] \<longleftrightarrow> list_all isspace s"
proof
  assume a: "strip s = []"
  let ?l = "dropWhile isspace s"
  from a have "dropWhile isspace (rev ?l) = []"
    by (simp only: strip_def lstrip_def rstrip_def rev_is_Nil_conv)
  then have all: "\<forall>x\<in>set ?l. isspace x"
    by (metis dropWhile_eq_Nil_conv set_rev)
  have "?l = []"
  proof (rule ccontr)
    assume n: "?l \<noteq> []"
    then have "\<not> isspace (hd ?l)" by (rule hd_dropWhile)
    moreover from n have "hd ?l \<in> set ?l" by (rule hd_in_set)
    ultimately show False using all by blast
  qed
  then have "\<forall>x\<in>set s. isspace x"
    by (metis dropWhile_eq_Nil_conv)
  then show "list_all isspace s"
    by (simp add: list_all_iff)
next
  assume "list_all isspace s"
  then show "strip s = []" by (rule strip_all_space)
qed

lemma constrained_str_Inr:
  "constrained_str lo hi v = Inr s \<longleftrightarrow>
     v = JStr s \<and> list_all unicode_scalar s \<and> lo \<le> length s \<and> length s \<le> hi"
  by (cases v) (auto simp: constrained_str_def str_type_def)

lemma TaskCreate_title_Inr:
  "TaskCreate_title p = Inr t \<longleftrightarrow>
     (\<exists>s. p ''title'' = Some (JStr s) \<and> list_all unicode_scalar s
          \<and> 1 \<le> length s \<and> length s \<le> 200 \<and> \<not> list_all isspace s \<and> t = strip s)"
proof (cases "p ''title''")
  case None
  then show ?thesis by (simp add: TaskCreate_title_def)
next
  case (Some v)
  show ?thesis
  proof (cases "constrained_str 1 200 v")
    case (Inl e)
    then have "\<not> (\<exists>s. v = JStr s \<and> list_all unicode_scalar s
                     \<and> 1 \<le> length s \<and> length s \<le> 200)"
      using constrained_str_Inr [of 1 200 v] by auto
    with Some Inl show ?thesis
      by (auto simp: TaskCreate_title_def after_validator_def)
  next
    case (Inr s)
    then have "v = JStr s \<and> list_all unicode_scalar s \<and> 1 \<le> length s \<and> length s \<le> 200"
      by (simp add: constrained_str_Inr)
    with Some Inr show ?thesis
      by (auto simp: TaskCreate_title_def after_validator_def title_not_whitespace_def
            strip_eq_Nil_iff)
  qed
qed

lemma nullable_str_Inr:
  "nullable str_type v = Inr d \<longleftrightarrow>
     (v = JNull \<and> d = None) \<or> (\<exists>s. v = JStr s \<and> list_all unicode_scalar s \<and> d = Some s)"
  by (cases v) (auto simp: nullable_def str_type_def)


lemma TaskCreate_validate_Inr:
  "TaskCreate_validate p = Inr td \<longleftrightarrow>
     TaskCreate_title p = Inr (create_title td) \<and>
     TaskCreate_description p = Inr (create_description td)"
  by (cases "TaskCreate_title p"; cases "TaskCreate_description p"; cases td)
     (auto simp: TaskCreate_validate_def)



section \<open>Service: general facts\<close>

lemma filter_id_absent:
  "tid \<notin> task_id ` set rows \<Longrightarrow> filter (\<lambda>r. task_id r = tid) rows = []"
  by (induction rows) auto

lemma get_task_absent:
  "tid \<notin> task_id ` set rows \<Longrightarrow> get_task rows tid = Inl (TaskNotFoundError tid)"
  by (simp add: get_task_def filter_id_absent scalar_one_or_none_def)

lemma get_task_Inr:
  "get_task rows tid = Inr task \<longleftrightarrow> filter (\<lambda>r. task_id r = tid) rows = [task]"
proof (cases "filter (\<lambda>r. task_id r = tid) rows")
  case Nil
  then show ?thesis by (simp add: get_task_def scalar_one_or_none_def)
next
  case (Cons a as)
  then show ?thesis
    by (cases as) (auto simp: get_task_def scalar_one_or_none_def)
qed

lemma get_task_Inr_id: "get_task rows tid = Inr task \<Longrightarrow> task_id task = tid"
proof -
  assume "get_task rows tid = Inr task"
  then have "filter (\<lambda>r. task_id r = tid) rows = [task]"
    by (simp add: get_task_Inr)
  then have "task \<in> set (filter (\<lambda>r. task_id r = tid) rows)"
    by simp
  then show ?thesis by simp
qed

lemma get_task_Inr_mem: "get_task rows tid = Inr task \<Longrightarrow> task \<in> set rows"
proof -
  assume "get_task rows tid = Inr task"
  then have "filter (\<lambda>r. task_id r = tid) rows = [task]"
    by (simp add: get_task_Inr)
  then have "task \<in> set (filter (\<lambda>r. task_id r = tid) rows)"
    by simp
  then show ?thesis by simp
qed

lemma not_null_Task_init: "not_null (Task_init ttl descr u t1 t2)"
  by (simp add: not_null_def Task_init_def)

lemma task_id_Task_init: "task_id (Task_init ttl descr u t1 t2) = u"
  by (simp add: Task_init_def)

lemma create_task_fresh:
  "u \<notin> task_id ` set rows \<Longrightarrow>
   create_task rows td u t1 t2 =
     Inr (rows @ [Task_init (create_title td) (create_description td) u t1 t2],
          Task_init (create_title td) (create_description td) u t1 t2)"
  by (simp add: create_task_def commit_insert_def not_null_Task_init task_id_Task_init Let_def)

lemma create_task_Inr:
  "create_task rows td u t1 t2 = Inr (rows', task) \<longleftrightarrow>
     u \<notin> task_id ` set rows
     \<and> task = Task_init (create_title td) (create_description td) u t1 t2
     \<and> rows' = rows @ [task]"
  by (auto simp: create_task_def commit_insert_def not_null_Task_init task_id_Task_init Let_def)

lemma get_task_appended:
  "task_id task \<notin> task_id ` set rows \<Longrightarrow> get_task (rows @ [task]) (task_id task) = Inr task"
  by (simp add: get_task_Inr filter_id_absent)

lemma delete_task_Inr:
  "get_task rows tid = Inr task \<Longrightarrow>
   delete_task rows tid = Inr (filter (\<lambda>r. task_id r \<noteq> tid) rows, ())"
  by (simp add: delete_task_def commit_delete_def get_task_Inr_id)

section \<open>C1: title validation on create\<close>




section \<open>C2: the record returned by create\<close>

text \<open>
  C2, as amended. When the generated id is not taken, \<open>create_task\<close> returns a record with
  \<open>is_completed\<close> false whose \<open>created_at\<close> is the first reading of the clock and whose
  \<open>updated_at\<close> is the second; the two are equal exactly when the two readings are.
\<close>

theorem create_task_defaults:
  "uuid4 \<notin> task_id ` set rows \<Longrightarrow>
   \<exists>rows' task. create_task rows task_data uuid4 utcnow1 utcnow2 = Inr (rows', task)
     \<and> is_completed task = Some False
     \<and> created_at task = utcnow1 \<and> updated_at task = utcnow2
     \<and> (created_at task = updated_at task \<longleftrightarrow> utcnow1 = utcnow2)"
  by (simp add: create_task_fresh) (simp add: Task_init_def)

text \<open>A create on the empty table with both readings of the clock equal to 10.\<close>

theorem create_task_defaults_witness:
  "\<exists>rows' task. create_task [] \<lparr>create_title = py ''a'', create_description = None\<rparr> 1 10 10
       = Inr (rows', task)
     \<and> is_completed task = Some False \<and> created_at task = 10 \<and> updated_at task = 10
     \<and> created_at task = updated_at task"
  using create_task_defaults [of 1 "[]" "\<lparr>create_title = py ''a'', create_description = None\<rparr>" 10 10]
  by simp

text \<open>
  C2 as stated fails: with the clock at 10 for the first reading and at 11 for the second,
  the record returned has \<open>created_at = 10\<close> and \<open>updated_at = 11\<close>.
\<close>

theorem created_at_updated_at_differ_counterexample:
  "create_task [] \<lparr>create_title = py ''a'', create_description = None\<rparr> 1 10 11 =
     Inr ([\<lparr>task_id = 1, title = Some (py ''a''), description = None,
             is_completed = Some False, created_at = 10, updated_at = 11\<rparr>],
          \<lparr>task_id = 1, title = Some (py ''a''), description = None,
            is_completed = Some False, created_at = 10, updated_at = 11\<rparr>)
   \<and> created_at \<lparr>task_id = 1, title = Some (py ''a''), description = None,
            is_completed = Some False, created_at = 10, updated_at = 11\<rparr>
     \<noteq> updated_at \<lparr>task_id = 1, title = Some (py ''a''), description = None,
            is_completed = Some False, created_at = 10, updated_at = 11\<rparr>"
  by (simp add: create_task_def commit_insert_def not_null_def Task_init_def Let_def)

section \<open>C6: ids that are not in the table\<close>

text \<open>
  C6. When no row has the id, \<open>get_task\<close>, \<open>update_task\<close> and \<open>delete_task\<close> each raise
  \<open>TaskNotFoundError\<close> carrying that id, and the update and delete requests leave the table
  as it was.
\<close>

theorem not_found:
  "tid \<notin> task_id ` set rows \<Longrightarrow>
     get_task rows tid = Inl (TaskNotFoundError tid)
   \<and> update_task rows tid task_data utcnow = Inl (TaskNotFoundError tid)
   \<and> delete_task rows tid = Inl (TaskNotFoundError tid)
   \<and> handle rows (Put tid body utcnow) = rows
   \<and> handle rows (Delete tid) = rows"
  by (cases "TaskUpdate_validate body")
     (simp_all add: get_task_absent update_task_def delete_task_def api_update_task_def
        api_delete_task_def)

text \<open>The three operations on the empty table with the id 7.\<close>

theorem not_found_witness:
  "get_task [] 7 = Inl (TaskNotFoundError 7)
   \<and> update_task [] 7 \<lparr>update_title = None, update_description = None,
        update_is_completed = Some True, model_fields_set = {''is_completed''}\<rparr> 20
       = Inl (TaskNotFoundError 7)
   \<and> delete_task [] 7 = Inl (TaskNotFoundError 7)
   \<and> handle [] (Put 7 [''is_completed'' \<mapsto> JBool True] 20) = []
   \<and> handle [] (Delete 7) = []"
  using not_found [of 7 "[]" "\<lparr>update_title = None, update_description = None,
        update_is_completed = Some True, model_fields_set = {''is_completed''}\<rparr>" 20
        "[''is_completed'' \<mapsto> JBool True]"]
  by simp

section \<open>C8: delete\<close>

text \<open>
  C8. For a record that exists, \<open>delete_task\<close> returns nothing and the table without the
  rows of that id; on the table it leaves, the id is not found, so a second delete raises
  \<open>TaskNotFoundError\<close>.
\<close>

theorem delete_task_removes:
  "get_task rows tid = Inr task \<Longrightarrow>
     delete_task rows tid = Inr (filter (\<lambda>r. task_id r \<noteq> tid) rows, ())
   \<and> tid \<notin> task_id ` set (filter (\<lambda>r. task_id r \<noteq> tid) rows)
   \<and> get_task (filter (\<lambda>r. task_id r \<noteq> tid) rows) tid = Inl (TaskNotFoundError tid)
   \<and> delete_task (filter (\<lambda>r. task_id r \<noteq> tid) rows) tid = Inl (TaskNotFoundError tid)"
proof -
  assume g: "get_task rows tid = Inr task"
  have a: "tid \<notin> task_id ` set (filter (\<lambda>r. task_id r \<noteq> tid) rows)"
    by auto
  then have n: "get_task (filter (\<lambda>r. task_id r \<noteq> tid) rows) tid = Inl (TaskNotFoundError tid)"
    by (rule get_task_absent)
  from g a n show ?thesis
    by (simp add: delete_task_Inr) (simp add: delete_task_def)
qed

text \<open>Deleting the only row of a table, twice.\<close>

theorem delete_task_removes_witness:
  "get_task [Task_init (py ''a'') None 1 10 10] 1 = Inr (Task_init (py ''a'') None 1 10 10)
   \<and> delete_task [Task_init (py ''a'') None 1 10 10] 1 = Inr ([], ())
   \<and> delete_task [] 1 = Inl (TaskNotFoundError 1)"
proof -
  have g: "get_task [Task_init (py ''a'') None 1 10 10] 1 = Inr (Task_init (py ''a'') None 1 10 10)"
    by (simp add: get_task_def scalar_one_or_none_def task_id_Task_init)
  from delete_task_removes [OF g] g show ?thesis
    by (simp add: task_id_Task_init)
qed

section \<open>C9: create, then get\<close>

text \<open>
  C9. \<open>create_task\<close> returns a record whenever the generated id is not taken, and
  \<open>get_task\<close> with the id of the record it returned, on the table it returned, yields that
  same record, equal in every field.
\<close>

theorem create_then_get:
  "(uuid4 \<notin> task_id ` set rows \<longrightarrow>
      (\<exists>rows' task. create_task rows task_data uuid4 utcnow1 utcnow2 = Inr (rows', task)))
   \<and> (\<forall>rows' task. create_task rows task_data uuid4 utcnow1 utcnow2 = Inr (rows', task) \<longrightarrow>
         get_task rows' (task_id task) = Inr task)"
proof (intro conjI allI impI)
  assume "uuid4 \<notin> task_id ` set rows"
  then show "\<exists>rows' task. create_task rows task_data uuid4 utcnow1 utcnow2 = Inr (rows', task)"
    by (simp add: create_task_fresh)
next
  fix rows' task
  assume "create_task rows task_data uuid4 utcnow1 utcnow2 = Inr (rows', task)"
  then have u: "uuid4 \<notin> task_id ` set rows"
    and t: "task = Task_init (create_title task_data) (create_description task_data)
                     uuid4 utcnow1 utcnow2"
    and r: "rows' = rows @ [task]"
    by (simp_all add: create_task_Inr)
  from t have "task_id task = uuid4"
    by (simp add: Task_init_def)
  with u have "task_id task \<notin> task_id ` set rows"
    by simp
  then have "get_task (rows @ [task]) (task_id task) = Inr task"
    by (rule get_task_appended)
  with r show "get_task rows' (task_id task) = Inr task"
    by simp
qed

text \<open>A create on the empty table followed by a get of the new id.\<close>

theorem create_then_get_witness:
  "create_task [] \<lparr>create_title = py ''a'', create_description = None\<rparr> 1 10 10 =
     Inr ([Task_init (py ''a'') None 1 10 10], Task_init (py ''a'') None 1 10 10)
   \<and> get_task [Task_init (py ''a'') None 1 10 10] 1 = Inr (Task_init (py ''a'') None 1 10 10)"
proof -
  have c: "create_task [] \<lparr>create_title = py ''a'', create_description = None\<rparr> 1 10 10 =
     Inr ([Task_init (py ''a'') None 1 10 10], Task_init (py ''a'') None 1 10 10)"
    by (simp add: create_task_def commit_insert_def not_null_Task_init Let_def)
  from create_then_get [of 1 "[]" "\<lparr>create_title = py ''a'', create_description = None\<rparr>" 10 10] c
  show ?thesis
    by (simp add: task_id_Task_init)
qed

section \<open>C10: what a create request can set\<close>

lemma TaskCreate_validate_cong:
  "body' ''title'' = body ''title'' \<Longrightarrow> body' ''description'' = body ''description'' \<Longrightarrow>
   TaskCreate_validate body' = TaskCreate_validate body"
  by (simp add: TaskCreate_validate_def TaskCreate_title_def TaskCreate_description_def)

text \<open>
  C10. A member of the body other than \<open>title\<close> and \<open>description\<close> changes nothing: the
  request has the same outcome with or without it, and every record created has
  \<open>is_completed\<close> false, the generated id and the two readings of the clock.
\<close>

theorem create_ignores_other_members:
  "k \<noteq> ''title'' \<Longrightarrow> k \<noteq> ''description'' \<Longrightarrow>
     api_create_task rows (body(k \<mapsto> v)) uuid4 utcnow1 utcnow2 =
       api_create_task rows body uuid4 utcnow1 utcnow2
   \<and> (\<forall>rows' task.
         api_create_task rows (body(k \<mapsto> v)) uuid4 utcnow1 utcnow2 = Inr (rows', task) \<longrightarrow>
           is_completed task = Some False \<and> task_id task = uuid4
           \<and> created_at task = utcnow1 \<and> updated_at task = utcnow2)"
proof -
  assume k: "k \<noteq> ''title''" "k \<noteq> ''description''"
  then have "TaskCreate_validate (body(k \<mapsto> v)) = TaskCreate_validate body"
    by (intro TaskCreate_validate_cong) simp_all
  then have same: "api_create_task rows (body(k \<mapsto> v)) uuid4 utcnow1 utcnow2 =
       api_create_task rows body uuid4 utcnow1 utcnow2"
    by (simp add: api_create_task_def)
  have "is_completed task = Some False \<and> task_id task = uuid4
           \<and> created_at task = utcnow1 \<and> updated_at task = utcnow2"
    if "api_create_task rows (body(k \<mapsto> v)) uuid4 utcnow1 utcnow2 = Inr (rows', task)"
    for rows' task
  proof -
    from that obtain td where "create_task rows td uuid4 utcnow1 utcnow2 = Inr (rows', task)"
      by (auto simp: api_create_task_def split: sum.splits)
    then have "task = Task_init (create_title td) (create_description td) uuid4 utcnow1 utcnow2"
      by (simp add: create_task_Inr)
    then show ?thesis
      by (simp add: Task_init_def)
  qed
  with same show ?thesis
    by blast
qed

text \<open>A body that carries \<open>"is_completed": true\<close> beside its title.\<close>

theorem create_ignores_other_members_witness:
  "api_create_task [] [''title'' \<mapsto> JStr (py ''a''), ''is_completed'' \<mapsto> JBool True] 1 10 10 =
     api_create_task [] [''title'' \<mapsto> JStr (py ''a'')] 1 10 10
   \<and> api_create_task [] [''title'' \<mapsto> JStr (py ''a''), ''is_completed'' \<mapsto> JBool True] 1 10 10 =
       Inr ([Task_init (py ''a'') None 1 10 10], Task_init (py ''a'') None 1 10 10)
   \<and> is_completed (Task_init (py ''a'') None 1 10 10) = Some False"
proof -
  have v: "TaskCreate_validate [''title'' \<mapsto> JStr (py ''a'')] =
      Inr \<lparr>create_title = py ''a'', create_description = None\<rparr>"
    by (simp add: TaskCreate_validate_def TaskCreate_title_def TaskCreate_description_def
        after_validator_def constrained_str_def str_type_def unicode_scalar_def title_not_whitespace_def
        strip_def lstrip_def rstrip_def isspace_def)
  have c: "api_create_task [] [''title'' \<mapsto> JStr (py ''a'')] 1 10 10 =
       Inr ([Task_init (py ''a'') None 1 10 10], Task_init (py ''a'') None 1 10 10)"
    using v by (simp add: api_create_task_def create_task_def commit_insert_def
        not_null_Task_init Let_def)
  from create_ignores_other_members [of "''is_completed''" "[]" "[''title'' \<mapsto> JStr (py ''a'')]"
      "JBool True" 1 10 10] c
  show ?thesis
    by simp
qed


section \<open>C7: listing\<close>

lemma mset_insert_desc: "mset (insert_desc t rs) = add_mset t (mset rs)"
  by (induction rs) simp_all

lemma set_insert_desc: "set (insert_desc t rs) = insert t (set rs)"
  by (induction rs) auto

lemma sorted_insert_desc:
  "sorted_wrt (\<lambda>a b. created_at b \<le> created_at a) rs \<Longrightarrow>
   sorted_wrt (\<lambda>a b. created_at b \<le> created_at a) (insert_desc t rs)"
proof (induction rs)
  case Nil
  then show ?case by simp
next
  case (Cons r rs)
  show ?case
  proof (cases "created_at r \<le> created_at t")
    case True
    with Cons.prems show ?thesis
      by (auto intro: order_trans)
  next
    case False
    with Cons show ?thesis
      by (auto simp: set_insert_desc)
  qed
qed

lemma mset_order_by: "mset (order_by_created_at_desc rs) = mset rs"
  by (induction rs) (simp_all add: mset_insert_desc)

lemma sorted_order_by:
  "sorted_wrt (\<lambda>a b. created_at b \<le> created_at a) (order_by_created_at_desc rs)"
  by (induction rs) (simp_all add: sorted_insert_desc)

lemma handle_Post_ok:
  assumes "TaskCreate_validate body = Inr td" "u \<notin> task_id ` set rows"
  shows "handle rows (Post body u t1 t2) =
           rows @ [Task_init (create_title td) (create_description td) u t1 t2]"
  using assms by (simp add: api_create_task_def create_task_fresh)

lemma run_Cons: "run rows (req # reqs) = run (handle rows req) reqs"
  by (simp add: run_def)

lemma run_posts:
  assumes "distinct (map (fst \<circ> snd) posts)"
    and "\<forall>x\<in>set posts. fst (snd x) \<notin> task_id ` set rows"
    and "\<forall>x\<in>set posts. \<exists>td. TaskCreate_validate (fst x) = Inr td"
  shows "length (run rows (map (\<lambda>(body, u, t1, t2). Post body u t1 t2) posts)) =
           length rows + length posts"
  using assms
proof (induction posts arbitrary: rows)
  case Nil
  then show ?case by (simp add: run_def)
next
  case (Cons x posts)
  obtain body u t1 t2 where x: "x = (body, u, t1, t2)"
    by (cases x) auto
  from Cons.prems(3) x obtain td where td: "TaskCreate_validate body = Inr td"
    by auto
  from Cons.prems(2) x have fresh: "u \<notin> task_id ` set rows"
    by simp
  let ?rows = "rows @ [Task_init (create_title td) (create_description td) u t1 t2]"
  have h: "handle rows (Post body u t1 t2) = ?rows"
    using td fresh by (rule handle_Post_ok)
  have d: "distinct (map (fst \<circ> snd) posts)"
    using Cons.prems(1) by (simp add: comp_def)
  have f: "\<forall>y\<in>set posts. fst (snd y) \<notin> task_id ` set ?rows"
    using Cons.prems(1,2) x by (auto simp: task_id_Task_init)
  have v: "\<forall>y\<in>set posts. \<exists>td. TaskCreate_validate (fst y) = Inr td"
    using Cons.prems(3) by simp
  from Cons.IH [OF d f v] h x show ?case
    by (simp add: run_Cons)
qed

text \<open>
  C7. \<open>list_tasks\<close> returns the rows of the table, each once, ordered by \<open>created_at\<close>
  descending; on the empty table it returns the empty list, a value and not an error. After
  N create requests with valid bodies and pairwise distinct generated ids on the empty
  table, it returns N records.
\<close>

theorem list_tasks_ordered:
  "sorted_wrt (\<lambda>a b. created_at b \<le> created_at a) (list_tasks rows)
   \<and> mset (list_tasks rows) = mset rows
   \<and> length (list_tasks rows) = length rows
   \<and> list_tasks [] = []
   \<and> (distinct (map (fst \<circ> snd) posts)
        \<and> (\<forall>x\<in>set posts. \<exists>task_data. TaskCreate_validate (fst x) = Inr task_data) \<longrightarrow>
       length (list_tasks (run [] (map (\<lambda>(body, uuid4, utcnow1, utcnow2).
                                          Post body uuid4 utcnow1 utcnow2) posts)))
         = length posts)"
proof (intro conjI impI)
  show "sorted_wrt (\<lambda>a b. created_at b \<le> created_at a) (list_tasks rows)"
    by (simp add: list_tasks_def sorted_order_by)
  show m: "mset (list_tasks rows) = mset rows"
    by (simp add: list_tasks_def mset_order_by)
  show "length (list_tasks rows) = length rows"
    using m by (metis size_mset)
  show "list_tasks [] = []"
    by (simp add: list_tasks_def)
next
  assume a: "distinct (map (fst \<circ> snd) posts)
        \<and> (\<forall>x\<in>set posts. \<exists>task_data. TaskCreate_validate (fst x) = Inr task_data)"
  let ?rows = "run [] (map (\<lambda>(body, uuid4, utcnow1, utcnow2).
                                          Post body uuid4 utcnow1 utcnow2) posts)"
  from a have d: "distinct (map (fst \<circ> snd) posts)"
    and v: "\<forall>x\<in>set posts. \<exists>td. TaskCreate_validate (fst x) = Inr td"
    by simp_all
  have f: "\<forall>x\<in>set posts. fst (snd x) \<notin> task_id ` set ([]::store)"
    by simp
  have "length ?rows = length ([]::store) + length posts"
    using d f v by (rule run_posts)
  moreover have "length (list_tasks ?rows) = length ?rows"
    by (metis list_tasks_def mset_order_by size_mset)
  ultimately show "length (list_tasks ?rows) = length posts"
    by simp
qed

text \<open>Two creates at the times 10 and 20: the list has the later record first.\<close>

theorem list_tasks_ordered_witness:
  "list_tasks (run [] [Post [''title'' \<mapsto> JStr (py ''First'')] 1 10 10,
                       Post [''title'' \<mapsto> JStr (py ''Second'')] 2 20 20]) =
     [Task_init (py ''Second'') None 2 20 20, Task_init (py ''First'') None 1 10 10]
   \<and> length (list_tasks (run [] [Post [''title'' \<mapsto> JStr (py ''First'')] 1 10 10,
                       Post [''title'' \<mapsto> JStr (py ''Second'')] 2 20 20])) = 2"
proof -
  have v1: "TaskCreate_validate [''title'' \<mapsto> JStr (py ''First'')] =
      Inr \<lparr>create_title = py ''First'', create_description = None\<rparr>"
    by (simp add: TaskCreate_validate_def TaskCreate_title_def TaskCreate_description_def
        after_validator_def constrained_str_def str_type_def unicode_scalar_def title_not_whitespace_def
        strip_def lstrip_def rstrip_def isspace_def)
  have v2: "TaskCreate_validate [''title'' \<mapsto> JStr (py ''Second'')] =
      Inr \<lparr>create_title = py ''Second'', create_description = None\<rparr>"
    by (simp add: TaskCreate_validate_def TaskCreate_title_def TaskCreate_description_def
        after_validator_def constrained_str_def str_type_def unicode_scalar_def title_not_whitespace_def
        strip_def lstrip_def rstrip_def isspace_def)
  have r: "run [] [Post [''title'' \<mapsto> JStr (py ''First'')] 1 10 10,
                       Post [''title'' \<mapsto> JStr (py ''Second'')] 2 20 20] =
       [Task_init (py ''First'') None 1 10 10, Task_init (py ''Second'') None 2 20 20]"
    using v1 v2 by (simp add: run_def api_create_task_def create_task_def commit_insert_def
        not_null_Task_init task_id_Task_init Let_def)
  have l: "list_tasks [Task_init (py ''First'') None 1 10 10, Task_init (py ''Second'') None 2 20 20]
      = [Task_init (py ''Second'') None 2 20 20, Task_init (py ''First'') None 1 10 10]"
    by (simp add: list_tasks_def Task_init_def)
  from list_tasks_ordered [of "run [] [Post [''title'' \<mapsto> JStr (py ''First'')] 1 10 10,
                       Post [''title'' \<mapsto> JStr (py ''Second'')] 2 20 20]"
      "[([''title'' \<mapsto> JStr (py ''First'')], 1, 10, 10),
        ([''title'' \<mapsto> JStr (py ''Second'')], 2, 20, 20)]"] v1 v2 r l
  show ?thesis
    by simp
qed


section \<open>Update: general facts\<close>

lemma foldl_setattr_model_dump:
  "foldl setattr task (model_dump_exclude_unset td) =
     task\<lparr>title := (if ''title'' \<in> model_fields_set td then update_title td else title task),
          description := (if ''description'' \<in> model_fields_set td
                          then update_description td else description task),
          is_completed := (if ''is_completed'' \<in> model_fields_set td
                           then update_is_completed td else is_completed task)\<rparr>"
  by (simp add: model_dump_exclude_unset_def)

lemma filter_id_replaced:
  assumes "task_id t = tid"
  shows "filter (\<lambda>r. task_id r = tid) (map (\<lambda>r. if task_id r = tid then t else r) rows) =
           map (\<lambda>r. t) (filter (\<lambda>r. task_id r = tid) rows)"
  using assms by (induction rows) auto

lemma get_task_replaced:
  assumes "get_task rows tid = Inr task" "task_id t = tid"
  shows "get_task (map (\<lambda>r. if task_id r = tid then t else r) rows) tid = Inr t"
proof -
  from assms(1) have "filter (\<lambda>r. task_id r = tid) rows = [task]"
    by (simp add: get_task_Inr)
  with assms(2) show ?thesis
    by (simp add: get_task_Inr filter_id_replaced)
qed

lemma update_task_found:
  assumes "get_task rows tid = Inr task"
  shows "update_task rows tid td now =
     (let task' = (foldl setattr task (model_dump_exclude_unset td))\<lparr>updated_at := now\<rparr>
      in if not_null task'
         then Inr (map (\<lambda>r. if task_id r = tid then task' else r) rows, task')
         else Inl IntegrityError)"
proof -
  from assms have "task_id task = tid"
    by (rule get_task_Inr_id)
  then have "task_id ((foldl setattr task (model_dump_exclude_unset td))\<lparr>updated_at := now\<rparr>) = tid"
    by (simp add: foldl_setattr_model_dump)
  with assms show ?thesis
    by (simp add: update_task_def commit_update_def Let_def)
qed

lemma nullable_constrained_str_Inr:
  "nullable (constrained_str lo hi) v = Inr x \<longleftrightarrow>
     (v = JNull \<and> x = None)
     \<or> (\<exists>s. v = JStr s \<and> list_all unicode_scalar s \<and> lo \<le> length s \<and> length s \<le> hi
            \<and> x = Some s)"
proof (cases v)
  case (JStr s)
  then show ?thesis
    by (cases "constrained_str lo hi (JStr s)")
       (auto simp: nullable_def constrained_str_def str_type_def split: if_splits)
qed (auto simp: nullable_def constrained_str_def str_type_def)

lemma TaskUpdate_title_Inr:
  "TaskUpdate_title p = Inr t \<longleftrightarrow>
     (p ''title'' = None \<and> t = None) \<or> (p ''title'' = Some JNull \<and> t = None)
     \<or> (\<exists>s. p ''title'' = Some (JStr s) \<and> list_all unicode_scalar s
            \<and> 1 \<le> length s \<and> length s \<le> 200
            \<and> \<not> list_all isspace s \<and> t = Some (strip s))"
proof (cases "p ''title''")
  case None
  then show ?thesis by (auto simp: TaskUpdate_title_def)
next
  case (Some v)
  show ?thesis
  proof (cases "nullable (constrained_str 1 200) v")
    case (Inl e)
    then have "v \<noteq> JNull"
      "\<not> (\<exists>s. v = JStr s \<and> list_all unicode_scalar s \<and> 1 \<le> length s \<and> length s \<le> 200)"
      using nullable_constrained_str_Inr [of 1 200 v] by auto
    with Some Inl show ?thesis
      by (auto simp: TaskUpdate_title_def after_validator_def)
  next
    case (Inr x)
    then have "(v = JNull \<and> x = None)
        \<or> (\<exists>s. v = JStr s \<and> list_all unicode_scalar s \<and> 1 \<le> length s \<and> length s \<le> 200
               \<and> x = Some s)"
      by (simp add: nullable_constrained_str_Inr)
    with Some Inr show ?thesis
      by (auto simp: TaskUpdate_title_def after_validator_def title_not_whitespace_opt_def
            strip_eq_Nil_iff split: if_splits)
  qed
qed

lemma TaskUpdate_description_Inr:
  "TaskUpdate_description p = Inr d \<longleftrightarrow>
     (p ''description'' = None \<and> d = None) \<or> (p ''description'' = Some JNull \<and> d = None)
     \<or> (\<exists>s. p ''description'' = Some (JStr s) \<and> list_all unicode_scalar s \<and> d = Some s)"
  by (cases "p ''description''") (auto simp: TaskUpdate_description_def nullable_str_Inr)

lemma TaskUpdate_is_completed_None:
  "TaskUpdate_is_completed p = Inr None \<longleftrightarrow>
     p ''is_completed'' = None \<or> p ''is_completed'' = Some JNull"
proof (cases "p ''is_completed''")
  case None
  then show ?thesis by (simp add: TaskUpdate_is_completed_def)
next
  case (Some v)
  then show ?thesis
    by (cases v; cases "bool_type v")
       (auto simp: TaskUpdate_is_completed_def nullable_def)
qed

lemma TaskUpdate_validate_Inr:
  "TaskUpdate_validate p = Inr td \<Longrightarrow>
     TaskUpdate_title p = Inr (update_title td)
     \<and> TaskUpdate_description p = Inr (update_description td)
     \<and> TaskUpdate_is_completed p = Inr (update_is_completed td)
     \<and> (''title'' \<in> model_fields_set td \<longleftrightarrow> p ''title'' \<noteq> None)
     \<and> (''description'' \<in> model_fields_set td \<longleftrightarrow> p ''description'' \<noteq> None)
     \<and> (''is_completed'' \<in> model_fields_set td \<longleftrightarrow> p ''is_completed'' \<noteq> None)"
  by (cases "TaskUpdate_title p"; cases "TaskUpdate_description p";
      cases "TaskUpdate_is_completed p")
     (auto simp: TaskUpdate_validate_def split: if_splits)

section \<open>Update: an input without null for a not-null column\<close>

text \<open>
  Where the record exists and the input supplies neither \<open>title\<close> nor \<open>is_completed\<close> as
  null, \<open>update_task\<close> returns and stores the record with each supplied field replaced,
  every other field as before and \<open>updated_at\<close> set to the current time.
\<close>

lemma update_task_applies_fields:
  assumes "get_task rows tid = Inr task" and "not_null task"
    and "''title'' \<in> model_fields_set task_data \<longrightarrow> update_title task_data \<noteq> None"
    and "''is_completed'' \<in> model_fields_set task_data \<longrightarrow>
           update_is_completed task_data \<noteq> None"
  shows "\<exists>rows' task'.
      update_task rows tid task_data utcnow = Inr (rows', task')
    \<and> task' = task\<lparr>
          title := (if ''title'' \<in> model_fields_set task_data
                    then update_title task_data else title task),
          description := (if ''description'' \<in> model_fields_set task_data
                          then update_description task_data else description task),
          is_completed := (if ''is_completed'' \<in> model_fields_set task_data
                           then update_is_completed task_data else is_completed task),
          updated_at := utcnow\<rparr>
    \<and> task_id task' = task_id task \<and> created_at task' = created_at task
    \<and> updated_at task' = utcnow
    \<and> rows' = map (\<lambda>r. if task_id r = tid then task' else r) rows
    \<and> get_task rows' tid = Inr task'"
proof -
  let ?t = "(foldl setattr task (model_dump_exclude_unset task_data))\<lparr>updated_at := utcnow\<rparr>"
  have nn: "not_null ?t"
    using assms(2,3,4) by (simp add: foldl_setattr_model_dump not_null_def)
  have u: "update_task rows tid task_data utcnow =
      Inr (map (\<lambda>r. if task_id r = tid then ?t else r) rows, ?t)"
    using update_task_found [OF assms(1), of task_data utcnow] nn by (simp add: Let_def)
  have i: "task_id ?t = tid"
    using get_task_Inr_id [OF assms(1)] by (simp add: foldl_setattr_model_dump)
  have g: "get_task (map (\<lambda>r. if task_id r = tid then ?t else r) rows) tid = Inr ?t"
    using assms(1) i by (rule get_task_replaced)
  from u g show ?thesis
    by (simp add: foldl_setattr_model_dump)
qed

section \<open>C4: what an update changes\<close>

text \<open>
  C4. The claim asks that every update input be applied to an existing record field by
  field, with \<open>updated_at\<close> set to the current time. The code fails to do so for the body
  \<open>{"title": null}\<close>, and likewise for \<open>{"is_completed": null}\<close>: the body passes
  \<open>TaskUpdate\<close> with the field among those supplied, \<open>update_task\<close> assigns the null, and
  the commit raises \<open>IntegrityError\<close>, so that nothing is applied and \<open>updated_at\<close> is not
  set. The create path rejects the same title with a \<open>ValidationError\<close>.
\<close>

theorem update_null_title_raises_IntegrityError:
  "get_task [Task_init (py ''a'') None 1 10 10] 1 = Inr (Task_init (py ''a'') None 1 10 10)
   \<and> TaskUpdate_validate [''title'' \<mapsto> JNull] =
       Inr \<lparr>update_title = None, update_description = None, update_is_completed = None,
            model_fields_set = {''title''}\<rparr>
   \<and> update_task [Task_init (py ''a'') None 1 10 10] 1
        \<lparr>update_title = None, update_description = None, update_is_completed = None,
         model_fields_set = {''title''}\<rparr> 20 = Inl IntegrityError
   \<and> api_update_task [Task_init (py ''a'') None 1 10 10] 1 [''title'' \<mapsto> JNull] 20 =
       Inl IntegrityError
   \<and> api_update_task [Task_init (py ''a'') None 1 10 10] 1 [''is_completed'' \<mapsto> JNull] 20 =
       Inl IntegrityError
   \<and> handle [Task_init (py ''a'') None 1 10 10] (Put 1 [''title'' \<mapsto> JNull] 20) =
       [Task_init (py ''a'') None 1 10 10]
   \<and> TaskCreate_validate [''title'' \<mapsto> JNull] =
       Inl (ValidationError [(''title'', String_type)])"
proof -
  have g: "get_task [Task_init (py ''a'') None 1 10 10] 1 = Inr (Task_init (py ''a'') None 1 10 10)"
    by (simp add: get_task_def scalar_one_or_none_def task_id_Task_init)
  have v: "TaskUpdate_validate [''title'' \<mapsto> JNull] =
       Inr \<lparr>update_title = None, update_description = None, update_is_completed = None,
            model_fields_set = {''title''}\<rparr>"
    by (simp add: TaskUpdate_validate_def TaskUpdate_title_def TaskUpdate_description_def
        TaskUpdate_is_completed_def after_validator_def nullable_def
        title_not_whitespace_opt_def)
  have w: "TaskUpdate_validate [''is_completed'' \<mapsto> JNull] =
       Inr \<lparr>update_title = None, update_description = None, update_is_completed = None,
            model_fields_set = {''is_completed''}\<rparr>"
    by (simp add: TaskUpdate_validate_def TaskUpdate_title_def TaskUpdate_description_def
        TaskUpdate_is_completed_def nullable_def)
  have u: "update_task [Task_init (py ''a'') None 1 10 10] 1
        \<lparr>update_title = None, update_description = None, update_is_completed = None,
         model_fields_set = {''title''}\<rparr> 20 = Inl IntegrityError"
    using update_task_found [OF g, of "\<lparr>update_title = None, update_description = None,
        update_is_completed = None, model_fields_set = {''title''}\<rparr>" 20]
    by (simp add: foldl_setattr_model_dump not_null_def Let_def)
  have u': "update_task [Task_init (py ''a'') None 1 10 10] 1
        \<lparr>update_title = None, update_description = None, update_is_completed = None,
         model_fields_set = {''is_completed''}\<rparr> 20 = Inl IntegrityError"
    using update_task_found [OF g, of "\<lparr>update_title = None, update_description = None,
        update_is_completed = None, model_fields_set = {''is_completed''}\<rparr>" 20]
    by (simp add: foldl_setattr_model_dump not_null_def Let_def)
  have a: "api_update_task [Task_init (py ''a'') None 1 10 10] 1 [''title'' \<mapsto> JNull] 20 =
       Inl IntegrityError"
    using v u by (simp add: api_update_task_def)
  have a': "api_update_task [Task_init (py ''a'') None 1 10 10] 1 [''is_completed'' \<mapsto> JNull] 20 =
       Inl IntegrityError"
    using w u' by (simp add: api_update_task_def)
  have h: "handle [Task_init (py ''a'') None 1 10 10] (Put 1 [''title'' \<mapsto> JNull] 20) =
       [Task_init (py ''a'') None 1 10 10]"
    using a by simp
  have c: "TaskCreate_validate [''title'' \<mapsto> JNull] =
       Inl (ValidationError [(''title'', String_type)])"
    by (simp add: TaskCreate_validate_def TaskCreate_title_def TaskCreate_description_def
        after_validator_def constrained_str_def str_type_def field_errors_def)
  from g v u a a' h c show ?thesis
    by blast
qed

section \<open>C5: description null and description absent\<close>

text \<open>
  C5. For a record that exists, every update that returns a record returns and stores one
  whose \<open>description\<close> is null when the body supplies \<open>description\<close> as null, and is the
  prior \<open>description\<close> when the body has no \<open>description\<close> member. The update does return
  a record for every body that passes validation and does not supply \<open>title\<close> or
  \<open>is_completed\<close> as null. For any body without a \<open>description\<close> member, the stored
  description after the request is the prior one.
\<close>

theorem description_null_or_absent:
  assumes "get_task rows tid = Inr task"
  shows "(\<forall>rows' task'. api_update_task rows tid body utcnow = Inr (rows', task') \<longrightarrow>
            get_task rows' tid = Inr task'
            \<and> (body ''description'' = Some JNull \<longrightarrow> description task' = None)
            \<and> (body ''description'' = None \<longrightarrow> description task' = description task))
       \<and> (not_null task \<and> TaskUpdate_validate body = Inr task_data
          \<and> body ''title'' \<noteq> Some JNull \<and> body ''is_completed'' \<noteq> Some JNull \<longrightarrow>
            (\<exists>rows' task'. api_update_task rows tid body utcnow = Inr (rows', task')))
       \<and> (body ''description'' = None \<longrightarrow>
            (\<exists>t. get_task (handle rows (Put tid body utcnow)) tid = Inr t
                 \<and> description t = description task))"
proof -
  have A: "get_task rows' tid = Inr task'
            \<and> (body ''description'' = Some JNull \<longrightarrow> description task' = None)
            \<and> (body ''description'' = None \<longrightarrow> description task' = description task)"
    if ret: "api_update_task rows tid body utcnow = Inr (rows', task')" for rows' task'
  proof -
    from ret obtain td where v: "TaskUpdate_validate body = Inr td"
      and u: "update_task rows tid td utcnow = Inr (rows', task')"
      by (auto simp: api_update_task_def split: sum.splits)
    let ?t = "(foldl setattr task (model_dump_exclude_unset td))\<lparr>updated_at := utcnow\<rparr>"
    from u update_task_found [OF assms, of td utcnow]
    have r: "rows' = map (\<lambda>r. if task_id r = tid then ?t else r) rows" and t: "task' = ?t"
      by (auto simp: Let_def split: if_splits)
    have i: "task_id ?t = tid"
      using get_task_Inr_id [OF assms] by (simp add: foldl_setattr_model_dump)
    have g: "get_task (map (\<lambda>r. if task_id r = tid then ?t else r) rows) tid = Inr ?t"
      using assms i by (rule get_task_replaced)
    note f = TaskUpdate_validate_Inr [OF v]
    have d1: "body ''description'' = Some JNull \<longrightarrow> description ?t = None"
      using f by (auto simp: foldl_setattr_model_dump TaskUpdate_description_Inr)
    have d2: "body ''description'' = None \<longrightarrow> description ?t = description task"
      using f by (auto simp: foldl_setattr_model_dump)
    from r t g d1 d2 show ?thesis
      by simp
  qed
  have B: "\<exists>rows' task'. api_update_task rows tid body utcnow = Inr (rows', task')"
    if a: "not_null task \<and> TaskUpdate_validate body = Inr task_data
          \<and> body ''title'' \<noteq> Some JNull \<and> body ''is_completed'' \<noteq> Some JNull"
  proof -
    from a have v: "TaskUpdate_validate body = Inr task_data" and nn: "not_null task"
      by simp_all
    note f = TaskUpdate_validate_Inr [OF v]
    from f a have t: "''title'' \<in> model_fields_set task_data \<longrightarrow> update_title task_data \<noteq> None"
      by (auto simp: TaskUpdate_title_Inr)
    have c: "''is_completed'' \<in> model_fields_set task_data \<longrightarrow>
           update_is_completed task_data \<noteq> None"
    proof (intro impI notI)
      assume "''is_completed'' \<in> model_fields_set task_data"
        and "update_is_completed task_data = None"
      with f have "body ''is_completed'' \<noteq> None" "TaskUpdate_is_completed body = Inr None"
        by simp_all
      with a show False
        by (simp add: TaskUpdate_is_completed_None)
    qed
    from update_task_applies_fields [OF assms nn t c, of utcnow] v show ?thesis
      by (auto simp: api_update_task_def)
  qed
  have C: "\<exists>t. get_task (handle rows (Put tid body utcnow)) tid = Inr t
                 \<and> description t = description task"
    if n: "body ''description'' = None"
  proof (cases "api_update_task rows tid body utcnow")
    case (Inl e)
    with assms show ?thesis by simp
  next
    case (Inr res)
    obtain rows' task' where res: "res = (rows', task')"
      by (cases res) auto
    with Inr A [of rows' task'] n show ?thesis
      by simp
  qed
  from A B C show ?thesis
    by blast
qed

text \<open>
  A record with the description \<open>"d"\<close>: the body \<open>{"description": null}\<close> clears it, the
  body \<open>{"is_completed": true}\<close> keeps it.
\<close>

theorem description_null_or_absent_witness:
  "(\<exists>rows' task'.
      api_update_task [Task_init (py ''a'') (Some (py ''d'')) 1 10 10] 1
        [''description'' \<mapsto> JNull] 20 = Inr (rows', task')
      \<and> get_task rows' 1 = Inr task' \<and> description task' = None)
   \<and> (\<exists>t. get_task (handle [Task_init (py ''a'') (Some (py ''d'')) 1 10 10]
                       (Put 1 [''is_completed'' \<mapsto> JBool True] 20)) 1 = Inr t
          \<and> description t = Some (py ''d''))"
proof -
  let ?r = "Task_init (py ''a'') (Some (py ''d'')) 1 10 10"
  have g: "get_task [?r] 1 = Inr ?r"
    by (simp add: get_task_def scalar_one_or_none_def task_id_Task_init)
  have n: "not_null ?r"
    by (rule not_null_Task_init)
  have v: "TaskUpdate_validate [''description'' \<mapsto> JNull] =
       Inr \<lparr>update_title = None, update_description = None, update_is_completed = None,
            model_fields_set = {''description''}\<rparr>"
    by (simp add: TaskUpdate_validate_def TaskUpdate_title_def TaskUpdate_description_def
        TaskUpdate_is_completed_def nullable_def)
  have d: "description ?r = Some (py ''d'')"
    by (simp add: Task_init_def)
  note th = description_null_or_absent [OF g, of "[''description'' \<mapsto> JNull]" 20
      "\<lparr>update_title = None, update_description = None, update_is_completed = None,
            model_fields_set = {''description''}\<rparr>"]
  from th n v obtain rows' task' where
      ret: "api_update_task [?r] 1 [''description'' \<mapsto> JNull] 20 = Inr (rows', task')"
    by auto
  with th have "get_task rows' 1 = Inr task' \<and> description task' = None"
    by simp
  with ret have 1: "\<exists>rows' task'.
      api_update_task [?r] 1 [''description'' \<mapsto> JNull] 20 = Inr (rows', task')
      \<and> get_task rows' 1 = Inr task' \<and> description task' = None"
    by blast
  from description_null_or_absent [OF g, of "[''is_completed'' \<mapsto> JBool True]" 20] d
  have 2: "\<exists>t. get_task (handle [?r] (Put 1 [''is_completed'' \<mapsto> JBool True] 20)) 1 = Inr t
          \<and> description t = Some (py ''d'')"
    by simp
  from 1 2 show ?thesis ..
qed

section \<open>C3: titles of stored rows\<close>

lemma title_ok_created:
  assumes "TaskCreate_validate body = Inr td"
  shows "title_ok (Task_init (create_title td) (create_description td) u t1 t2)"
proof -
  from assms have "TaskCreate_title body = Inr (create_title td)"
    by (simp add: TaskCreate_validate_Inr)
  then obtain s where "\<not> list_all isspace s" "create_title td = strip s"
    unfolding TaskCreate_title_Inr by blast
  then show ?thesis
    by (simp add: title_ok_def Task_init_def strip_eq_Nil_iff strip_not_all_space)
qed

lemma title_ok_updated:
  assumes "TaskUpdate_validate body = Inr td" and "title_ok task"
    and "not_null ((foldl setattr task (model_dump_exclude_unset td))\<lparr>updated_at := now\<rparr>)"
  shows "title_ok ((foldl setattr task (model_dump_exclude_unset td))\<lparr>updated_at := now\<rparr>)"
proof (cases "''title'' \<in> model_fields_set td")
  case True
  with assms(3) have nn: "update_title td \<noteq> None"
    by (simp add: foldl_setattr_model_dump not_null_def)
  from assms(1) have "TaskUpdate_title body = Inr (update_title td)"
    by (simp add: TaskUpdate_validate_Inr)
  with nn obtain s where "\<not> list_all isspace s" "update_title td = Some (strip s)"
    unfolding TaskUpdate_title_Inr by auto
  with True show ?thesis
    by (simp add: foldl_setattr_model_dump title_ok_def strip_eq_Nil_iff strip_not_all_space)
next
  case False
  with assms(2) show ?thesis
    by (simp add: foldl_setattr_model_dump title_ok_def)
qed

lemma handle_title_ok:
  assumes "\<forall>t\<in>set rows. title_ok t"
  shows "\<forall>t\<in>set (handle rows req). title_ok t"
proof (cases req)
  case (Post body u t1 t2)
  show ?thesis
  proof (cases "api_create_task rows body u t1 t2")
    case (Inl e)
    with Post assms show ?thesis by simp
  next
    case (Inr res)
    obtain rows' task where res: "res = (rows', task)"
      by (cases res) auto
    from Inr res obtain td where v: "TaskCreate_validate body = Inr td"
      and c: "create_task rows td u t1 t2 = Inr (rows', task)"
      by (auto simp: api_create_task_def split: sum.splits)
    from c have "rows' = rows @ [Task_init (create_title td) (create_description td) u t1 t2]"
      by (simp add: create_task_Inr)
    with title_ok_created [OF v] assms Post Inr res show ?thesis
      by simp
  qed
next
  case (Put tid body now)
  show ?thesis
  proof (cases "api_update_task rows tid body now")
    case (Inl e)
    with Put assms show ?thesis by simp
  next
    case (Inr res)
    obtain rows' task' where res: "res = (rows', task')"
      by (cases res) auto
    from Inr res obtain td where v: "TaskUpdate_validate body = Inr td"
      and u: "update_task rows tid td now = Inr (rows', task')"
      by (auto simp: api_update_task_def split: sum.splits)
    from u obtain task where g: "get_task rows tid = Inr task"
      by (auto simp: update_task_def split: sum.splits)
    let ?t = "(foldl setattr task (model_dump_exclude_unset td))\<lparr>updated_at := now\<rparr>"
    from u update_task_found [OF g, of td now]
    have nn: "not_null ?t" and r: "rows' = map (\<lambda>r. if task_id r = tid then ?t else r) rows"
      by (auto simp: Let_def split: if_splits)
    from g assms have "title_ok task"
      by (blast dest: get_task_Inr_mem)
    with v have "title_ok ?t"
      using nn by (rule title_ok_updated)
    with r assms have "\<forall>t\<in>set rows'. title_ok t"
      by auto
    with Put Inr res show ?thesis
      by simp
  qed
next
  case (Delete tid)
  show ?thesis
  proof (cases "get_task rows tid")
    case (Inl e)
    with Delete assms show ?thesis
      by (simp add: api_delete_task_def delete_task_def)
  next
    case (Inr task)
    with Delete assms show ?thesis
      by (simp add: api_delete_task_def delete_task_Inr)
  qed
qed

lemma run_title_ok:
  "\<forall>t\<in>set rows. title_ok t \<Longrightarrow> \<forall>t\<in>set (run rows reqs). title_ok t"
proof (induction reqs arbitrary: rows)
  case Nil
  then show ?case by (simp add: run_def)
next
  case (Cons req reqs)
  from Cons.prems have "\<forall>t\<in>set (handle rows req). title_ok t"
    by (rule handle_title_ok)
  then have "\<forall>t\<in>set (run (handle rows req) reqs). title_ok t"
    by (rule Cons.IH)
  then show ?case
    by (simp add: run_Cons)
qed

lemma Put_title_null:
  assumes "body ''title'' = Some JNull"
  shows "handle rows (Put tid body now) = rows"
proof (cases "api_update_task rows tid body now")
  case (Inl e)
  then show ?thesis by simp
next
  case (Inr res)
  obtain rows' task' where res: "res = (rows', task')"
    by (cases res) auto
  from Inr res obtain td where v: "TaskUpdate_validate body = Inr td"
    and u: "update_task rows tid td now = Inr (rows', task')"
    by (auto simp: api_update_task_def split: sum.splits)
  from u obtain task where g: "get_task rows tid = Inr task"
    by (auto simp: update_task_def split: sum.splits)
  from TaskUpdate_validate_Inr [OF v] assms
  have "''title'' \<in> model_fields_set td" "update_title td = None"
    by (auto simp: TaskUpdate_title_Inr)
  then have "\<not> not_null ((foldl setattr task (model_dump_exclude_unset td))\<lparr>updated_at := now\<rparr>)"
    by (simp add: foldl_setattr_model_dump not_null_def)
  with u update_task_found [OF g, of td now] have False
    by (simp add: Let_def)
  then show ?thesis ..
qed

text \<open>
  C3. After any sequence of create, update and delete requests on the empty table (and on
  any table whose titles are in order), every stored row has a title that is a string,
  not empty and not all whitespace. An update request whose body supplies \<open>title\<close> as null
  leaves the table as it was.
\<close>

theorem stored_title_never_blank:
  "(\<forall>t\<in>set (run [] reqs). title_ok t)
   \<and> ((\<forall>t\<in>set rows. title_ok t) \<longrightarrow> (\<forall>t\<in>set (run rows reqs). title_ok t))
   \<and> (body ''title'' = Some JNull \<longrightarrow> handle rows (Put tid body utcnow) = rows)"
proof (intro conjI impI)
  have "\<forall>t\<in>set ([]::store). title_ok t"
    by simp
  then show "\<forall>t\<in>set (run [] reqs). title_ok t"
    by (rule run_title_ok)
next
  assume "\<forall>t\<in>set rows. title_ok t"
  then show "\<forall>t\<in>set (run rows reqs). title_ok t"
    by (rule run_title_ok)
next
  assume "body ''title'' = Some JNull"
  then show "handle rows (Put tid body utcnow) = rows"
    by (rule Put_title_null)
qed

text \<open>
  A create with a padded title, then three updates: title null, a padded title, a blank
  title. Only the second update is stored.
\<close>

theorem stored_title_never_blank_witness:
  "run [] [Post [''title'' \<mapsto> JStr (py ''  a '')] 1 10 10,
              Put 1 [''title'' \<mapsto> JNull] 20,
              Put 1 [''title'' \<mapsto> JStr (py '' b '')] 30,
              Put 1 [''title'' \<mapsto> JStr (py ''   '')] 40] =
     [\<lparr>task_id = 1, title = Some (py ''b''), description = None,
       is_completed = Some False, created_at = 10, updated_at = 30\<rparr>]
   \<and> title_ok \<lparr>task_id = 1, title = Some (py ''b''), description = None,
       is_completed = Some False, created_at = 10, updated_at = 30\<rparr>
   \<and> handle [\<lparr>task_id = 1, title = Some (py ''b''), description = None,
       is_completed = Some False, created_at = 10, updated_at = 30\<rparr>]
        (Put 1 [''title'' \<mapsto> JNull] 50) =
      [\<lparr>task_id = 1, title = Some (py ''b''), description = None,
       is_completed = Some False, created_at = 10, updated_at = 30\<rparr>]"
proof -
  have r: "run [] [Post [''title'' \<mapsto> JStr (py ''  a '')] 1 10 10,
              Put 1 [''title'' \<mapsto> JNull] 20,
              Put 1 [''title'' \<mapsto> JStr (py '' b '')] 30,
              Put 1 [''title'' \<mapsto> JStr (py ''   '')] 40] =
     [\<lparr>task_id = 1, title = Some (py ''b''), description = None,
       is_completed = Some False, created_at = 10, updated_at = 30\<rparr>]"
    by (simp add: run_def api_create_task_def api_update_task_def
      TaskCreate_validate_def TaskCreate_title_def TaskCreate_description_def
      TaskUpdate_validate_def TaskUpdate_title_def TaskUpdate_description_def
      TaskUpdate_is_completed_def after_validator_def nullable_def constrained_str_def
      str_type_def unicode_scalar_def title_not_whitespace_def title_not_whitespace_opt_def
      strip_def lstrip_def rstrip_def isspace_def
      create_task_def commit_insert_def Task_init_def not_null_def Let_def
      update_task_def get_task_def scalar_one_or_none_def model_dump_exclude_unset_def
      commit_update_def field_errors_def)
  from stored_title_never_blank [of
      "[Post [''title'' \<mapsto> JStr (py ''  a '')] 1 10 10,
        Put 1 [''title'' \<mapsto> JNull] 20,
        Put 1 [''title'' \<mapsto> JStr (py '' b '')] 30,
        Put 1 [''title'' \<mapsto> JStr (py ''   '')] 40]"
      "[\<lparr>task_id = 1, title = Some (py ''b''), description = None,
         is_completed = Some False, created_at = 10, updated_at = 30\<rparr>]"
      "[''title'' \<mapsto> JNull]" 1 50] r
  show ?thesis
    by simp
qed

section \<open>The not-null columns of stored rows\<close>

text \<open>Every row of a table built by requests has a \<open>title\<close> and an \<open>is_completed\<close>.\<close>

lemma handle_not_null:
  assumes "\<forall>t\<in>set rows. not_null t"
  shows "\<forall>t\<in>set (handle rows req). not_null t"
proof (cases req)
  case (Post body u t1 t2)
  show ?thesis
  proof (cases "api_create_task rows body u t1 t2")
    case (Inl e)
    with Post assms show ?thesis by simp
  next
    case (Inr res)
    obtain rows' task where res: "res = (rows', task)"
      by (cases res) auto
    from Inr res obtain td where "create_task rows td u t1 t2 = Inr (rows', task)"
      by (auto simp: api_create_task_def split: sum.splits)
    then have "rows' = rows @ [Task_init (create_title td) (create_description td) u t1 t2]"
      by (simp add: create_task_Inr)
    with assms Post Inr res show ?thesis
      by (simp add: not_null_Task_init)
  qed
next
  case (Put tid body now)
  show ?thesis
  proof (cases "api_update_task rows tid body now")
    case (Inl e)
    with Put assms show ?thesis by simp
  next
    case (Inr res)
    obtain rows' task' where res: "res = (rows', task')"
      by (cases res) auto
    from Inr res obtain td where u: "update_task rows tid td now = Inr (rows', task')"
      by (auto simp: api_update_task_def split: sum.splits)
    from u obtain task where g: "get_task rows tid = Inr task"
      by (auto simp: update_task_def split: sum.splits)
    let ?t = "(foldl setattr task (model_dump_exclude_unset td))\<lparr>updated_at := now\<rparr>"
    from u update_task_found [OF g, of td now]
    have nn: "not_null ?t" and r: "rows' = map (\<lambda>r. if task_id r = tid then ?t else r) rows"
      by (auto simp: Let_def split: if_splits)
    with assms have "\<forall>t\<in>set rows'. not_null t"
      by auto
    with Put Inr res show ?thesis
      by simp
  qed
next
  case (Delete tid)
  show ?thesis
  proof (cases "get_task rows tid")
    case (Inl e)
    with Delete assms show ?thesis
      by (simp add: api_delete_task_def delete_task_def)
  next
    case (Inr task)
    with Delete assms show ?thesis
      by (simp add: api_delete_task_def delete_task_Inr)
  qed
qed

lemma run_not_null:
  "\<forall>t\<in>set rows. not_null t \<Longrightarrow> \<forall>t\<in>set (run rows reqs). not_null t"
proof (induction reqs arbitrary: rows)
  case Nil
  then show ?case by (simp add: run_def)
next
  case (Cons req reqs)
  from Cons.prems have "\<forall>t\<in>set (handle rows req). not_null t"
    by (rule handle_not_null)
  then have "\<forall>t\<in>set (run (handle rows req) reqs). not_null t"
    by (rule Cons.IH)
  then show ?case
    by (simp add: run_Cons)
qed

end
